theory Spec2Isabelle
  imports Main
begin

section \<open>Python strings\<close>

text \<open>
  Text is a \<^typ>\<open>string\<close>: a list of characters, each standing for a code point
  below 256. The helpers below are the methods of Python's \<^verbatim>\<open>str\<close> that
  \<^verbatim>\<open>spyderlib/widgets/sourcecode/base.py\<close> calls.
\<close>

datatype error = ValueError | IndexError | AssertionError | AttributeError

text \<open>\<^verbatim>\<open>str.isspace\<close> on one character: the white space of Unicode below 256
  (TAB, LF, VT, FF, CR, FS, GS, RS, US, SPACE, NEL, NBSP).\<close>

definition isspace :: "char \<Rightarrow> bool" where
  "isspace c = (c \<in> set [CHR 0x09, CHR 0x0A, CHR 0x0B, CHR 0x0C, CHR 0x0D,
                          CHR 0x1C, CHR 0x1D, CHR 0x1E, CHR 0x1F, CHR 0x20,
                          CHR 0x85, CHR 0xA0])"

definition lstrip :: "string \<Rightarrow> string" where
  "lstrip s = dropWhile isspace s"

definition rstrip :: "string \<Rightarrow> string" where
  "rstrip s = rev (dropWhile isspace (rev s))"

definition strip :: "string \<Rightarrow> string" where
  "strip s = rstrip (lstrip s)"

text \<open>\<^verbatim>\<open>s.startswith(p)\<close>.\<close>

definition startswith :: "string \<Rightarrow> string \<Rightarrow> bool" where
  "startswith s p = (take (length p) s = p)"

text \<open>
  \<^verbatim>\<open>s.split(sep)\<close> for a non-empty separator: the occurrences of \<open>sep\<close> are taken
  from left to right, without overlap. The empty separator raises ValueError; the
  caller checks it (\<open>py_split\<close>).
\<close>

fun split_at :: "string \<Rightarrow> string \<Rightarrow> string list" where
  "split_at sep [] = [[]]"
| "split_at sep (c # s) =
     (if sep \<noteq> [] \<and> startswith (c # s) sep
      then [] # split_at sep (drop (length sep) (c # s))
      else (case split_at sep s of
              [] \<Rightarrow> [[c]]
            | p # ps \<Rightarrow> (c # p) # ps))"

definition py_split :: "string \<Rightarrow> string \<Rightarrow> error + string list" where
  "py_split s sep = (if sep = [] then Inl ValueError else Inr (split_at sep s))"

text \<open>\<^verbatim>\<open>sep.join(xs)\<close>.\<close>

fun join :: "string \<Rightarrow> string list \<Rightarrow> string" where
  "join sep [] = []"
| "join sep [x] = x"
| "join sep (x # y # ys) = x @ sep @ join sep (y # ys)"

section \<open>Selected text as executable code\<close>

text \<open>
  \<^verbatim>\<open>TextEditBaseWidget.get_selection_as_executable_code\<close>. The widget supplies
  three values: the line separator \<open>ls\<close> (\<^verbatim>\<open>self.get_line_separator()\<close>), the
  selected text (\<^verbatim>\<open>self.get_selected_text()\<close>) and the text of the first selected
  line in the buffer (\<^verbatim>\<open>self.get_text_line(line_from)\<close>), of which only the
  indentation \<open>original_indent\<close> is used.
\<close>

text \<open>\<^verbatim>\<open>_indent = lambda line: len(line)-len(line.lstrip())\<close>\<close>

definition indent_of :: "string \<Rightarrow> nat" where
  "indent_of line = length line - length (lstrip line)"

text \<open>
  The multiline fix of the first line:
  \<^verbatim>\<open>text = (" "*(original_indent-_indent(lines[0])))+text\<close>. A string times a
  negative number is empty, which the truncating subtraction of \<^typ>\<open>nat\<close> gives.
\<close>

definition fix_first_line :: "string \<Rightarrow> nat \<Rightarrow> string \<Rightarrow> string" where
  "fix_first_line ls original_indent text =
     (let lines = split_at ls text in
      if length lines > 1
      then replicate (original_indent - indent_of (hd lines)) CHR '' '' @ text
      else text)"

text \<open>
  The loop \<^verbatim>\<open>for i in range(len(lines)-1, -1, -1)\<close>: it visits the last line
  first. The result holds the rewritten lines, \<^verbatim>\<open>current_indent\<close> and
  \<^verbatim>\<open>min_indent\<close>, which starts at 999.
\<close>

fun common_indent :: "string list \<Rightarrow> string list \<times> nat \<times> nat" where
  "common_indent [] = ([], 0, 999)"
| "common_indent (line # below) =
     (case common_indent below of (below', current_indent, min_indent) \<Rightarrow>
        if strip line \<noteq> []
        then (line # below', indent_of line, min (indent_of line) min_indent)
        else (replicate current_indent CHR '' '' # below', current_indent, min_indent))"

text \<open>\<^verbatim>\<open>if min_indent: lines = [line[min_indent:] for line in lines]\<close>\<close>

definition dedent :: "string list \<Rightarrow> string list" where
  "dedent lines =
     (case common_indent lines of (lines', current_indent, min_indent) \<Rightarrow>
        if min_indent \<noteq> 0 then map (drop min_indent) lines' else lines')"

text \<open>
  The loop that removes leading blank and comment lines. It reads \<^verbatim>\<open>lines[0]\<close>
  before the loop and again after every \<^verbatim>\<open>lines.pop(0)\<close>; on the empty list
  that read raises IndexError.
\<close>

fun remove_leading :: "string list \<Rightarrow> error + string list" where
  "remove_leading [] = Inl IndexError"
| "remove_leading (line # rest) =
     (let first_line = lstrip line in
      if first_line = [] \<or> hd first_line = CHR ''#''
      then remove_leading rest
      else Inr (line # rest))"

text \<open>\<^verbatim>\<open>varname = re.compile('[a-zA-Z0-9_]*')\<close>; \<^verbatim>\<open>varname.match(line).group()\<close>
  is the longest prefix of such characters.\<close>

definition is_varname_char :: "char \<Rightarrow> bool" where
  "is_varname_char c =
     (let n = (of_char c :: nat) in
      (97 \<le> n \<and> n \<le> 122) \<or> (65 \<le> n \<and> n \<le> 90) \<or> (48 \<le> n \<and> n \<le> 57) \<or> n = 95)"

definition varname_match :: "string \<Rightarrow> string" where
  "varname_match line = takeWhile is_varname_char line"

text \<open>The state of the reserved-word loop: the list it mutates and its two flags.\<close>

record scan_state =
  lines :: "string list"
  maybe :: bool
  nextexcept :: "string list"

text \<open>\<^verbatim>\<open>lines[n-1] += ls\<close>: for \<open>n = 0\<close> Python's index \<open>-1\<close> is the last line.\<close>

definition append_to_previous :: "string \<Rightarrow> nat \<Rightarrow> string list \<Rightarrow> string list" where
  "append_to_previous ls n xs =
     (let i = (if n = 0 then length xs - 1 else n - 1) in xs[i := xs ! i @ ls])"

text \<open>The first \<^verbatim>\<open>if\<close> of the loop body: a pending block is closed.\<close>

definition close_pending :: "string \<Rightarrow> nat \<Rightarrow> string \<Rightarrow> scan_state \<Rightarrow> scan_state" where
  "close_pending ls n word st =
     (if maybe st \<and> word \<notin> set (nextexcept st)
      then st\<lparr>lines := append_to_previous ls n (lines st), maybe := False\<rparr>
      else st)"

text \<open>The second \<^verbatim>\<open>if\<close> of the loop body: a reserved word opens a block.\<close>

definition open_block :: "string \<Rightarrow> scan_state \<Rightarrow> scan_state" where
  "open_block word st =
     (if word \<noteq> [] then
        if word \<in> set [''def'', ''for'', ''while'', ''with'', ''class'']
        then st\<lparr>maybe := True, nextexcept := []\<rparr>
        else if word = ''if''
        then st\<lparr>maybe := True, nextexcept := [''elif'', ''else'']\<rparr>
        else if word = ''try''
        then st\<lparr>maybe := True, nextexcept := [''except'', ''finally'']\<rparr>
        else st
      else st)"

text \<open>The loop body at index \<open>n\<close>; \<open>line\<close> is the element that \<^verbatim>\<open>enumerate\<close>
  yields there.\<close>

definition scan_line :: "string \<Rightarrow> nat \<Rightarrow> scan_state \<Rightarrow> scan_state" where
  "scan_line ls n st =
     (let line = lines st ! n in
      if indent_of line = 0
      then (let word = varname_match line in open_block word (close_pending ls n word st))
      else st)"

text \<open>\<^verbatim>\<open>for n, line in enumerate(lines)\<close>, from \<^verbatim>\<open>maybe = False\<close> and
  \<^verbatim>\<open>nextexcept = ()\<close>.\<close>

definition scan_lines :: "string \<Rightarrow> string list \<Rightarrow> scan_state" where
  "scan_lines ls xs =
     fold (scan_line ls) [0 ..< length xs] \<lparr>lines = xs, maybe = False, nextexcept = []\<rparr>"

text \<open>The block after the loop: \<^verbatim>\<open>if maybe:\<close> the last line is extended or a
  line is appended. \<^verbatim>\<open>lines[-1]\<close> is read on a list that is never empty here.\<close>

definition terminate_last :: "string \<Rightarrow> scan_state \<Rightarrow> string list" where
  "terminate_last ls st =
     (if maybe st then
        if strip (last (lines st)) = []
        then (lines st)[length (lines st) - 1 := last (lines st) @ ls]
        else lines st @ [ls]
      else lines st)"

text \<open>The lines that the function joins at its end, for a selection that is not
  empty.\<close>

definition executable_lines :: "string \<Rightarrow> nat \<Rightarrow> string \<Rightarrow> error + string list" where
  "executable_lines text original_indent ls =
     (if ls = [] then Inl ValueError
      else case remove_leading (dedent (split_at ls (fix_first_line ls original_indent text))) of
             Inl e \<Rightarrow> Inl e
           | Inr xs \<Rightarrow> Inr (terminate_last ls (scan_lines ls xs)))"

text \<open>The whole function. \<^verbatim>\<open>if not text: return\<close> gives \<open>None\<close>.\<close>

definition get_selection_as_executable_code ::
  "string \<Rightarrow> nat \<Rightarrow> string \<Rightarrow> error + string option" where
  "get_selection_as_executable_code text original_indent ls =
     (if text = [] then Inr None
      else case executable_lines text original_indent ls of
             Inl e \<Rightarrow> Inl e
           | Inr xs \<Rightarrow> Inr (Some (join ls xs)))"

section \<open>ANSI escape code handler\<close>

text \<open>
  An exit of a method that mutates an object: \<open>Done\<close> with the state it leaves, or
  \<open>Raised\<close> with the exception and the state at the moment it was raised.
\<close>

datatype 'a outcome = Done 'a | Raised error 'a

text \<open>\<^verbatim>\<open>xs[i]\<close> on a tuple or list: a negative index counts from the end.\<close>

definition py_index :: "'a list \<Rightarrow> int \<Rightarrow> error + 'a" where
  "py_index xs i =
     (if 0 \<le> i \<and> i < int (length xs) then Inr (xs ! nat i)
      else if i < 0 \<and> - int (length xs) \<le> i then Inr (xs ! nat (int (length xs) + i))
      else Inl IndexError)"

text \<open>
  \<^verbatim>\<open>QFont\<close> and \<^verbatim>\<open>QTextCharFormat\<close>, with the properties that the handler
  reads or writes and, for the font, two that it leaves alone. A colour is the string
  that \<^verbatim>\<open>QColor\<close> is built from.
\<close>

type_synonym qcolor = string

record qfont =
  family :: string
  point_size :: int
  font_italic :: bool
  font_bold :: bool
  font_underline :: bool

record char_format =
  foreground :: qcolor
  background :: qcolor
  font :: qfont

text \<open>
  The fields of \<^verbatim>\<open>QtANSIEscapeCodeHandler\<close>. The first eight are set by
  \<^verbatim>\<open>ANSIEscapeCodeHandler.__init__\<close>, which is in
  \<^verbatim>\<open>spyderlib/widgets/sourcecode/terminal.py\<close> and not among the sources; the
  last two by the subclass.
\<close>

record handler =
  intensity :: int
  italic :: "bool option"
  bold :: "bool option"
  underline :: "bool option"
  foreground_color :: "int option"
  background_color :: "int option"
  default_foreground_color :: int
  default_background_color :: int
  base_format :: "char_format option"
  current_format :: "char_format option"

text \<open>\<^verbatim>\<open>QtANSIEscapeCodeHandler.__init__\<close>; \<open>h\<close> is the object as the constructor of
  the base class leaves it.\<close>

definition handler_init :: "handler \<Rightarrow> handler" where
  "handler_init h = h\<lparr>base_format := None, current_format := None\<rparr>"

definition set_light_background :: "bool \<Rightarrow> handler \<Rightarrow> handler" where
  "set_light_background state h =
     (if state
      then h\<lparr>default_foreground_color := 30, default_background_color := 47\<rparr>
      else h\<lparr>default_foreground_color := 37, default_background_color := 40\<rparr>)"

definition set_base_format :: "char_format option \<Rightarrow> handler \<Rightarrow> handler" where
  "set_base_format f h = h\<lparr>base_format := f\<rparr>"

definition get_format :: "handler \<Rightarrow> char_format option" where
  "get_format h = current_format h"

text \<open>A read of \<^verbatim>\<open>self.base_format.x()\<close>: on \<^verbatim>\<open>None\<close> it raises
  AttributeError.\<close>

definition of_base :: "handler \<Rightarrow> (char_format \<Rightarrow> 'a) \<Rightarrow> error + 'a" where
  "of_base h get = (case base_format h of None \<Rightarrow> Inl AttributeError | Some b \<Rightarrow> Inr (get b))"

text \<open>
  \<^verbatim>\<open>self.ANSI_COLORS[code-offset][self.intensity]\<close>. The table \<open>colors\<close> is a
  class attribute of the base class (not among the sources) and is a parameter here.
\<close>

definition table_color :: "qcolor list list \<Rightarrow> int \<Rightarrow> int \<Rightarrow> error + qcolor" where
  "table_color colors i j =
     (case py_index colors i of Inl e \<Rightarrow> Inl e | Inr row \<Rightarrow> py_index row j)"

definition foreground_qcolor :: "qcolor list list \<Rightarrow> handler \<Rightarrow> error + qcolor" where
  "foreground_qcolor colors h =
     (case foreground_color h of
        None \<Rightarrow> of_base h foreground
      | Some c \<Rightarrow> table_color colors (c - 30) (intensity h))"

definition background_qcolor :: "qcolor list list \<Rightarrow> handler \<Rightarrow> error + qcolor" where
  "background_qcolor colors h =
     (case background_color h of
        None \<Rightarrow> of_base h background
      | Some c \<Rightarrow> table_color colors (c - 40) (intensity h))"

definition attribute :: "handler \<Rightarrow> bool option \<Rightarrow> (qfont \<Rightarrow> bool) \<Rightarrow> error + bool" where
  "attribute h v get = (case v of None \<Rightarrow> of_base h (\<lambda>b. get (font b)) | Some x \<Rightarrow> Inr x)"

text \<open>The font part of \<^verbatim>\<open>set_style\<close>: italic, bold, underline, in this order, on
  a copy of the font that only \<^verbatim>\<open>setFont\<close> stores.\<close>

definition styled_font :: "handler \<Rightarrow> qfont \<Rightarrow> error + qfont" where
  "styled_font h f =
     (case attribute h (italic h) font_italic of Inl e \<Rightarrow> Inl e | Inr i \<Rightarrow>
     (case attribute h (bold h) font_bold of Inl e \<Rightarrow> Inl e | Inr b \<Rightarrow>
     (case attribute h (underline h) font_underline of Inl e \<Rightarrow> Inl e | Inr u \<Rightarrow>
        Inr (f\<lparr>font_italic := i, font_bold := b, font_underline := u\<rparr>))))"

text \<open>
  \<^verbatim>\<open>QtANSIEscapeCodeHandler.set_style\<close>. \<^verbatim>\<open>QTextCharFormat(self.base_format)\<close>
  is a copy, so records (values) stand for the format objects.
\<close>

definition set_style :: "qcolor list list \<Rightarrow> handler \<Rightarrow> handler outcome" where
  "set_style colors h =
     (case (case current_format h of
              Some cur \<Rightarrow> Inr cur
            | None \<Rightarrow> (case base_format h of None \<Rightarrow> Inl AssertionError | Some b \<Rightarrow> Inr b)) of
        Inl e \<Rightarrow> Raised e h
      | Inr cur \<Rightarrow>
     (case foreground_qcolor colors h of
        Inl e \<Rightarrow> Raised e (h\<lparr>current_format := Some cur\<rparr>)
      | Inr fg \<Rightarrow>
     (case background_qcolor colors h of
        Inl e \<Rightarrow> Raised e (h\<lparr>current_format := Some (cur\<lparr>foreground := fg\<rparr>)\<rparr>)
      | Inr bg \<Rightarrow>
     (case styled_font h (font cur) of
        Inl e \<Rightarrow> Raised e (h\<lparr>current_format := Some (cur\<lparr>foreground := fg, background := bg\<rparr>)\<rparr>)
      | Inr f \<Rightarrow>
          Done (h\<lparr>current_format :=
                    Some (cur\<lparr>foreground := fg, background := bg, font := f\<rparr>)\<rparr>)))))"

text \<open>
  Modelled from the spec: \<^verbatim>\<open>ANSIEscapeCodeHandler.set_code\<close>, which is defined in
  \<^verbatim>\<open>spyderlib/widgets/sourcecode/terminal.py\<close>, a file that is not among the
  sources. The parameter semantics are those of section 4.1 of the specification:
  0 clears foreground, background, bold, italic and underline; 1, 3, 4 switch bold,
  italic, underline on and 22, 23, 24 off; 30..37 and 40..47 set the colour with normal
  intensity, 90..97 and 100..107 the same hue (code - 60) with bright intensity; 39 and
  49 clear the foreground and the background; any other code changes nothing.
\<close>

definition set_code_attributes :: "int \<Rightarrow> handler \<Rightarrow> handler" where
  "set_code_attributes code h =
     (if code = 0
      then h\<lparr>italic := None, bold := None, underline := None,
              foreground_color := None, background_color := None\<rparr>
      else if code = 1 then h\<lparr>bold := Some True\<rparr>
      else if code = 3 then h\<lparr>italic := Some True\<rparr>
      else if code = 4 then h\<lparr>underline := Some True\<rparr>
      else if code = 22 then h\<lparr>bold := Some False\<rparr>
      else if code = 23 then h\<lparr>italic := Some False\<rparr>
      else if code = 24 then h\<lparr>underline := Some False\<rparr>
      else if 30 \<le> code \<and> code \<le> 37 then h\<lparr>intensity := 0, foreground_color := Some code\<rparr>
      else if 90 \<le> code \<and> code \<le> 97
      then h\<lparr>intensity := 1, foreground_color := Some (code - 60)\<rparr>
      else if 40 \<le> code \<and> code \<le> 47 then h\<lparr>intensity := 0, background_color := Some code\<rparr>
      else if 100 \<le> code \<and> code \<le> 107
      then h\<lparr>intensity := 1, background_color := Some (code - 60)\<rparr>
      else if code = 39 then h\<lparr>foreground_color := None\<rparr>
      else if code = 49 then h\<lparr>background_color := None\<rparr>
      else h)"

text \<open>
  Modelled from the spec: the resolved style is recomputed after each code application
  (section 3), so \<^verbatim>\<open>set_code\<close> ends with \<^verbatim>\<open>set_style\<close>.
\<close>

definition set_code :: "qcolor list list \<Rightarrow> int \<Rightarrow> handler \<Rightarrow> handler outcome" where
  "set_code colors code h = set_style colors (set_code_attributes code h)"

text \<open>\<^verbatim>\<open>for code in codes: self.ansi_handler.set_code(code)\<close>\<close>

fun set_codes :: "qcolor list list \<Rightarrow> int list \<Rightarrow> handler \<Rightarrow> handler outcome" where
  "set_codes colors [] h = Done h"
| "set_codes colors (code # codes) h =
     (case set_code colors code h of
        Raised e h' \<Rightarrow> Raised e h'
      | Done h' \<Rightarrow> set_codes colors codes h')"

section \<open>The colour pattern\<close>

text \<open>\<^verbatim>\<open>COLOR_PATTERN = re.compile('\x01?\x1b\[(.*?)m\x02?')\<close>\<close>

definition SOH :: char where "SOH = CHR 0x01"
definition STX :: char where "STX = CHR 0x02"
definition ESC :: char where "ESC = CHR 0x1B"
definition LF :: char where "LF = CHR 0x0A"
definition CR :: char where "CR = CHR 0x0D"
definition FF :: char where "FF = CHR 0x0C"

text \<open>
  \<^verbatim>\<open>(.*?)m\<close> at the head of a string: the lazy group takes the characters up to
  the first \<^verbatim>\<open>m\<close>, and the dot does not match a line feed. The result is the
  group and the text after the \<^verbatim>\<open>m\<close>.
\<close>

fun lazy_group :: "string \<Rightarrow> (string \<times> string) option" where
  "lazy_group [] = None"
| "lazy_group (c # s) =
     (if c = CHR ''m'' then Some ([], s)
      else if c = LF then None
      else (case lazy_group s of None \<Rightarrow> None | Some (g, r) \<Rightarrow> Some (c # g, r)))"

text \<open>\<^verbatim>\<open>\x02?\<close>: greedy, and nothing follows it in the pattern.\<close>

fun skip_stx :: "string \<Rightarrow> string" where
  "skip_stx [] = []"
| "skip_stx (c # s) = (if c = STX then s else c # s)"

text \<open>\<^verbatim>\<open>\x1b\[(.*?)m\x02?\<close> at the head of a string.\<close>

fun match_csi :: "string \<Rightarrow> (string \<times> string) option" where
  "match_csi (e # b # s) =
     (if e = ESC \<and> b = CHR ''[''
      then (case lazy_group s of None \<Rightarrow> None | Some (g, r) \<Rightarrow> Some (g, skip_stx r))
      else None)"
| "match_csi s = None"

text \<open>
  The whole pattern at the head of a string: \<^verbatim>\<open>\x01?\<close> first tries to take the
  character and, when the rest then fails, tries without it. The result is
  \<^verbatim>\<open>match.group(1)\<close> and the text from \<^verbatim>\<open>match.end()\<close> on.
\<close>

definition match_here :: "string \<Rightarrow> (string \<times> string) option" where
  "match_here s =
     (case (case s of c # r \<Rightarrow> if c = SOH then match_csi r else None | [] \<Rightarrow> None) of
        Some m \<Rightarrow> Some m
      | None \<Rightarrow> match_csi s)"

text \<open>
  \<^verbatim>\<open>int(_c)\<close> on a string: white space around it is dropped, then comes an
  optional sign and at least one decimal digit; anything else raises ValueError
  (\<open>None\<close>). The white space of \<^verbatim>\<open>int\<close> is TAB, LF, VT, FF, CR, SPACE, NEL and
  NBSP. Underscores between digits, which later versions of Python allow, are not
  accepted.
\<close>

definition int_space :: "char \<Rightarrow> bool" where
  "int_space c = (c \<in> set [CHR 0x09, CHR 0x0A, CHR 0x0B, CHR 0x0C, CHR 0x0D, CHR 0x20,
                            CHR 0x85, CHR 0xA0])"

definition is_digit :: "char \<Rightarrow> bool" where
  "is_digit c = (48 \<le> (of_char c :: nat) \<and> (of_char c :: nat) \<le> 57)"

definition digits_value :: "string \<Rightarrow> int" where
  "digits_value ds = foldl (\<lambda>a c. 10 * a + (int (of_char c) - 48)) 0 ds"

definition py_int :: "string \<Rightarrow> int option" where
  "py_int s =
     (let t = rev (dropWhile int_space (rev (dropWhile int_space s)));
          (neg, ds) = (case t of
                         [] \<Rightarrow> (False, [])
                       | c # r \<Rightarrow> if c = CHR ''-'' then (True, r)
                                  else if c = CHR ''+'' then (False, r)
                                  else (False, t))
      in if ds \<noteq> [] \<and> list_all is_digit ds
         then Some (if neg then - digits_value ds else digits_value ds)
         else None)"

text \<open>\<^verbatim>\<open>[int(_c) for _c in match.group(1).split(';')]\<close>: the list is built before
  any code is applied, and one bad entry raises ValueError.\<close>

definition parse_codes :: "string \<Rightarrow> int list option" where
  "parse_codes g =
     (let entries = map py_int (split_at '';'' g)
      in if list_all (\<lambda>v. v \<noteq> None) entries then Some (map the entries) else None)"

section \<open>The console widget\<close>

text \<open>
  The part of \<^verbatim>\<open>ConsoleBaseWidget\<close> that \<^verbatim>\<open>append_text_to_shell\<close> reads and
  writes: the runs inserted into the document since it was last cleared (every
  \<^verbatim>\<open>cursor.insertText(text, format)\<close> adds one at the end), the handler, the
  \<^verbatim>\<open>format\<close> of each of the four font styles (\<^verbatim>\<open>None\<close> until
  \<^verbatim>\<open>apply_style\<close> has run), whether \<^verbatim>\<open>traceback_available()\<close> was emitted and
  the current character format of the widget.
\<close>

record console =
  inserted :: "(string \<times> char_format option) list"
  ansi_handler :: handler
  default_style_format :: "char_format option"
  error_style_format :: "char_format option"
  traceback_link_style_format :: "char_format option"
  prompt_style_format :: "char_format option"
  traceback_available :: bool
  current_char_format :: "char_format option"

definition insertText :: "string \<Rightarrow> char_format option \<Rightarrow> console \<Rightarrow> console" where
  "insertText text fmt w = w\<lparr>inserted := inserted w @ [(text, fmt)]\<rparr>"

text \<open>\<^verbatim>\<open>self.clear()\<close> empties the document.\<close>

definition clear :: "console \<Rightarrow> console" where
  "clear w = w\<lparr>inserted := []\<rparr>"

text \<open>
  The body of the loop over the matches, after the \<^verbatim>\<open>insertText\<close> of the text
  before the match: the codes are parsed, applied, and the format of the default style
  becomes \<^verbatim>\<open>self.ansi_handler.get_format()\<close>.
\<close>

definition apply_match :: "qcolor list list \<Rightarrow> string \<Rightarrow> console \<Rightarrow> console outcome" where
  "apply_match colors g w =
     (case parse_codes g of
        None \<Rightarrow> Raised ValueError w
      | Some codes \<Rightarrow>
          (case set_codes colors codes (ansi_handler w) of
             Raised e h \<Rightarrow> Raised e (w\<lparr>ansi_handler := h\<rparr>)
           | Done h \<Rightarrow> Done (w\<lparr>ansi_handler := h, default_style_format := get_format h\<rparr>)))"

lemma lazy_group_shorter: "lazy_group s = Some (g, r) \<Longrightarrow> length r < length s"
  by (induction s arbitrary: g r) (auto split: if_splits option.splits)

lemma skip_stx_length: "length (skip_stx r) \<le> length r"
  by (cases r) auto

lemma match_csi_shorter: "match_csi s = Some (g, r) \<Longrightarrow> length r < length s"
proof (induction s rule: match_csi.induct)
  case (1 e b s)
  then obtain r' where "lazy_group s = Some (g, r')" and "r = skip_stx r'"
    by (auto split: if_splits option.splits)
  then show ?case
    using lazy_group_shorter [of s g r'] skip_stx_length [of r'] by simp
qed simp_all

lemma match_here_shorter: "match_here s = Some (g, r) \<Longrightarrow> length r < length s"
  unfolding match_here_def
  by (auto split: option.splits list.splits if_splits dest: match_csi_shorter)

text \<open>
  The loop \<^verbatim>\<open>for match in self.COLOR_PATTERN.finditer(text)\<close> and the
  \<^verbatim>\<open>insertText\<close> after it. \<open>s\<close> is the text from the position that the search
  has reached, \<open>run\<close> the text between \<^verbatim>\<open>last_end\<close> and that position. A match is
  tried at every position from left to right; after a match the search goes on at its
  end.
\<close>

function decode_from :: "qcolor list list \<Rightarrow> string \<Rightarrow> string \<Rightarrow> console \<Rightarrow> console outcome" where
  "decode_from colors run s w =
     (if s = [] then Done (insertText run (default_style_format w) w)
      else (case match_here s of
              None \<Rightarrow> decode_from colors (run @ [hd s]) (tl s) w
            | Some (g, r) \<Rightarrow>
                (case apply_match colors g (insertText run (default_style_format w) w) of
                   Raised e w' \<Rightarrow> Raised e w'
                 | Done w' \<Rightarrow> decode_from colors [] r w')))"
  by pat_completeness auto
termination
  by (relation "measure (\<lambda>(colors, run, s, w). length s)")
     (auto dest: match_here_shorter)

text \<open>The branch of \<^verbatim>\<open>append_text_to_shell\<close> for \<^verbatim>\<open>error=False\<close> and
  \<^verbatim>\<open>prompt=False\<close>, from \<^verbatim>\<open>last_end = 0\<close>.\<close>

definition decode :: "qcolor list list \<Rightarrow> string \<Rightarrow> console \<Rightarrow> console outcome" where
  "decode colors text w = decode_from colors [] text w"

text \<open>\<^verbatim>\<open>text.find(chr(12))\<close>; \<open>None\<close> stands for -1.\<close>

fun find_char :: "char \<Rightarrow> string \<Rightarrow> nat option" where
  "find_char c [] = None"
| "find_char c (x # xs) =
     (if x = c then Some 0 else (case find_char c xs of None \<Rightarrow> None | Some i \<Rightarrow> Some (Suc i)))"

lemma find_char_less: "find_char c s = Some i \<Longrightarrow> i < length s"
  by (induction s arbitrary: i) (auto split: if_splits option.splits)

text \<open>The form feed loop at the head of \<^verbatim>\<open>append_text_to_shell\<close>.\<close>

function form_feed_loop :: "string \<Rightarrow> console \<Rightarrow> string \<times> console" where
  "form_feed_loop text w =
     (case find_char FF text of
        None \<Rightarrow> (text, w)
      | Some index \<Rightarrow> form_feed_loop (drop (index + 1) text) (clear w))"
  by pat_completeness auto
termination
  by (relation "measure (\<lambda>(text, w). length text)")
     (auto dest: find_char_less)

text \<open>
  \<^verbatim>\<open>text.splitlines(True)\<close>: the line ends are kept. The line boundaries below 256
  are LF, CR, CR LF, VT, FF, FS, GS, RS and NEL. \<open>cur\<close> is the line read so far.
\<close>

definition is_linebreak :: "char \<Rightarrow> bool" where
  "is_linebreak c = (c \<in> set [CHR 0x0A, CHR 0x0B, CHR 0x0C, CHR 0x0D,
                               CHR 0x1C, CHR 0x1D, CHR 0x1E, CHR 0x85])"

fun splitlines_from :: "string \<Rightarrow> string \<Rightarrow> string list" where
  "splitlines_from cur [] = (if cur = [] then [] else [cur])"
| "splitlines_from cur [c] = [cur @ [c]]"
| "splitlines_from cur (c # d # s) =
     (if c = CR \<and> d = LF then (cur @ [c, d]) # splitlines_from [] s
      else if is_linebreak c then (cur @ [c]) # splitlines_from [] (d # s)
      else splitlines_from (cur @ [c]) (d # s))"

definition splitlines_keepends :: "string \<Rightarrow> string list" where
  "splitlines_keepends text = splitlines_from [] text"

text \<open>The body of the loop of the \<^verbatim>\<open>error\<close> branch; the flag is
  \<^verbatim>\<open>is_traceback\<close>.\<close>

definition insert_error_line :: "string \<Rightarrow> bool \<times> console \<Rightarrow> bool \<times> console" where
  "insert_error_line text st =
     (case st of (is_traceback, w) \<Rightarrow>
        if startswith text ''  File'' \<and> \<not> startswith text (''  File '' @ [CHR 0x22, CHR ''<''])
        then (True, insertText (drop 2 text) (traceback_link_style_format w)
                      (insertText ''  '' (default_style_format w) w))
        else (is_traceback, insertText text (error_style_format w) w))"

definition insert_error_text :: "string \<Rightarrow> console \<Rightarrow> console" where
  "insert_error_text text w =
     (case fold insert_error_line (splitlines_keepends text) (False, w) of
        (is_traceback, w') \<Rightarrow>
          if is_traceback then w'\<lparr>traceback_available := True\<rparr> else w')"

text \<open>The last statement of \<^verbatim>\<open>append_text_to_shell\<close>:
  \<^verbatim>\<open>self.setCurrentCharFormat(self.default_style.format)\<close>.\<close>

definition finish :: "console \<Rightarrow> console" where
  "finish w = w\<lparr>current_char_format := default_style_format w\<rparr>"

text \<open>\<^verbatim>\<open>ConsoleBaseWidget.append_text_to_shell\<close>\<close>

definition append_text_to_shell ::
  "qcolor list list \<Rightarrow> string \<Rightarrow> bool \<Rightarrow> bool \<Rightarrow> console \<Rightarrow> console outcome" where
  "append_text_to_shell colors text error prompt w =
     (case form_feed_loop text w of (text', w') \<Rightarrow>
        if error then Done (finish (insert_error_text text' w'))
        else if prompt then Done (finish (insertText text' (prompt_style_format w') w'))
        else (case decode colors text' w' of
                Raised e w'' \<Rightarrow> Raised e w''
              | Done w'' \<Rightarrow> Done (finish w'')))"

section \<open>Predicates and examples for the statements\<close>

text \<open>
  An example of the colour table, of a format, of a handler with that format as its
  base format and of a console: the inputs at which statements are evaluated.
\<close>


definition sample_colors :: "qcolor list list" where
  "sample_colors =
     [[''#000000'', ''#808080''], [''#800000'', ''#ff0000''], [''#008000'', ''#00ff00''],
      [''#808000'', ''#ffff00''], [''#000080'', ''#0000ff''], [''#800080'', ''#ff00ff''],
      [''#008080'', ''#00ffff''], [''#c0c0c0'', ''#ffffff'']]"

definition sample_format :: char_format where
  "sample_format =
     \<lparr>foreground = ''#000000'', background = ''#ffffff'',
      font = \<lparr>family = ''Monospace'', point_size = 10, font_italic = False,
              font_bold = False, font_underline = False\<rparr>\<rparr>"

definition sample_handler :: handler where
  "sample_handler =
     \<lparr>intensity = 0, italic = None, bold = None, underline = None,
      foreground_color = None, background_color = None,
      default_foreground_color = 30, default_background_color = 47,
      base_format = Some sample_format, current_format = None\<rparr>"

definition sample_console :: console where
  "sample_console =
     \<lparr>inserted = [], ansi_handler = sample_handler,
      default_style_format = Some sample_format, error_style_format = None,
      traceback_link_style_format = None, prompt_style_format = None,
      traceback_available = False, current_char_format = None\<rparr>"

text \<open>
  The shape of the colour table in the data model of the specification (section 3 and
  section 4.1): eight hues, each with a normal and a bright colour.
\<close>

definition table_ok :: "qcolor list list \<Rightarrow> bool" where
  "table_ok colors = (length colors = 8 \<and> (\<forall>row \<in> set colors. length row = 2))"

text \<open>
  The ranges that the data model of the specification (section 3) gives the fields of
  the handler: a foreground code 30..37 or none, a background code 40..47 or none, and
  intensity 0 or 1. Every operation on the handler keeps them
  (\<open>codes_in_range_kept\<close> below).
\<close>

definition codes_in_range :: "handler \<Rightarrow> bool" where
  "codes_in_range h =
     ((case foreground_color h of None \<Rightarrow> True | Some c \<Rightarrow> 30 \<le> c \<and> c \<le> 37) \<and>
      (case background_color h of None \<Rightarrow> True | Some c \<Rightarrow> 40 \<le> c \<and> c \<le> 47) \<and>
      (intensity h = 0 \<or> intensity h = 1))"

fun contains_match :: "string \<Rightarrow> bool" where
  "contains_match [] = False"
| "contains_match (c # s) = (match_here (c # s) \<noteq> None \<or> contains_match s)"

text \<open>The state of the reserved-word loop after its first \<open>k\<close> iterations.\<close>

definition scan_prefix :: "string \<Rightarrow> string list \<Rightarrow> nat \<Rightarrow> scan_state" where
  "scan_prefix ls xs k =
     fold (scan_line ls) [0 ..< k] \<lparr>lines = xs, maybe = False, nextexcept = []\<rparr>"

text \<open>
  Step 6 of the algorithm in the specification: the reserved words that open a block
  and, for each of them, the words that may continue the block. \<open>None\<close> is a word
  that opens no block.
\<close>

definition continuations :: "string \<Rightarrow> string list option" where
  "continuations word =
     (if word \<in> set [''def'', ''for'', ''while'', ''with'', ''class''] then Some []
      else if word = ''if'' then Some [''elif'', ''else'']
      else if word = ''try'' then Some [''except'', ''finally'']
      else None)"

text \<open>A handler without base format that holds bold, the foreground code 31 and the
  background code 44.\<close>

definition styled_handler :: handler where
  "styled_handler =
     sample_handler\<lparr>bold := Some True, foreground_color := Some 31,
                    background_color := Some 44, base_format := None\<rparr>"

section \<open>Properties of the executable code of a selection\<close>

text \<open>
  Claim C2. A selection that holds only blank lines and comment lines should give an
  empty result. The loop that removes these lines reads \<^verbatim>\<open>lines[0]\<close> after the last
  line has been removed: on the selection \<^verbatim>\<open># c\<close> the function raises IndexError.
\<close>

theorem comment_only_selection_raises:
  "get_selection_as_executable_code ''# c'' 0 ''\<newline>'' = Inl IndexError"
  by code_simp

lemma scan_prefix_0: "scan_prefix ls xs 0 = \<lparr>lines = xs, maybe = False, nextexcept = []\<rparr>"
  by (simp add: scan_prefix_def)

lemma scan_prefix_Suc: "scan_prefix ls xs (Suc k) = scan_line ls k (scan_prefix ls xs k)"
  by (simp add: scan_prefix_def)

lemma scan_lines_prefix: "scan_lines ls xs = scan_prefix ls xs (length xs)"
  by (simp add: scan_lines_def scan_prefix_def)

lemma open_block_lines: "lines (open_block word st) = lines st"
  by (simp add: open_block_def)

lemma open_block_maybe:
  "maybe (open_block word st) = (continuations word \<noteq> None \<or> maybe st)"
  by (simp add: open_block_def continuations_def)

lemma open_block_nextexcept:
  "nextexcept (open_block word st) =
     (case continuations word of None \<Rightarrow> nextexcept st | Some allowed \<Rightarrow> allowed)"
  by (simp add: open_block_def continuations_def)

lemma close_pending_lines:
  "lines (close_pending ls n word st) =
     (if maybe st \<and> word \<notin> set (nextexcept st)
      then append_to_previous ls n (lines st) else lines st)"
  by (simp add: close_pending_def)

lemma close_pending_maybe:
  "maybe (close_pending ls n word st) = (maybe st \<and> word \<in> set (nextexcept st))"
  by (auto simp: close_pending_def)

lemma close_pending_nextexcept:
  "nextexcept (close_pending ls n word st) = nextexcept st"
  by (simp add: close_pending_def)

lemma scan_line_lines:
  "lines (scan_line ls k st) = lines st \<or>
   (maybe st \<and> lines (scan_line ls k st) = append_to_previous ls k (lines st))"
  by (simp add: scan_line_def Let_def open_block_lines close_pending_lines)

lemma scan_prefix_inv:
  "k \<le> length xs \<Longrightarrow>
   length (lines (scan_prefix ls xs k)) = length xs \<and>
   (\<forall>m. k \<le> Suc m \<longrightarrow> m < length xs \<longrightarrow> lines (scan_prefix ls xs k) ! m = xs ! m) \<and>
   (k = 0 \<longrightarrow> \<not> maybe (scan_prefix ls xs k))"
proof (induction k)
  case 0
  show ?case by (simp add: scan_prefix_0)
next
  case (Suc k)
  let ?st = "scan_prefix ls xs k"
  from Suc have len: "length (lines ?st) = length xs"
    and same: "\<And>m. k \<le> Suc m \<Longrightarrow> m < length xs \<Longrightarrow> lines ?st ! m = xs ! m"
    and z: "k = 0 \<Longrightarrow> \<not> maybe ?st"
    by simp_all
  from scan_line_lines [of ls k ?st] z
  have "lines (scan_line ls k ?st) = lines ?st \<or>
        (0 < k \<and> lines (scan_line ls k ?st) = (lines ?st)[k - 1 := lines ?st ! (k - 1) @ ls])"
    by (cases k) (auto simp: append_to_previous_def)
  then show ?case
  proof
    assume "lines (scan_line ls k ?st) = lines ?st"
    then show ?thesis by (simp add: scan_prefix_Suc len same)
  next
    assume "0 < k \<and> lines (scan_line ls k ?st) = (lines ?st)[k - 1 := lines ?st ! (k - 1) @ ls]"
    then show ?thesis by (auto simp: scan_prefix_Suc len same nth_list_update)
  qed
qed

lemma scan_prefix_length: "k \<le> length xs \<Longrightarrow> length (lines (scan_prefix ls xs k)) = length xs"
  by (simp add: scan_prefix_inv)

lemma scan_prefix_step:
  assumes "j < length xs"
  shows "scan_prefix ls xs (Suc j) =
     (if indent_of (xs ! j) = 0
      then open_block (varname_match (xs ! j))
             (close_pending ls j (varname_match (xs ! j)) (scan_prefix ls xs j))
      else scan_prefix ls xs j)"
proof -
  from assms scan_prefix_inv [of j xs ls] have "lines (scan_prefix ls xs j) ! j = xs ! j"
    by simp
  then show ?thesis by (simp add: scan_prefix_Suc scan_line_def Let_def)
qed

lemma scan_prefix_indented:
  "Suc i \<le> j \<Longrightarrow> j \<le> length xs \<Longrightarrow> \<forall>k. i < k \<and> k < j \<longrightarrow> indent_of (xs ! k) \<noteq> 0 \<Longrightarrow>
   scan_prefix ls xs j = scan_prefix ls xs (Suc i)"
proof (induction j)
  case 0
  then show ?case by simp
next
  case (Suc j)
  show ?case
  proof (cases "j = i")
    case True
    then show ?thesis by simp
  next
    case False
    with Suc.prems have a: "Suc i \<le> j" "j \<le> length xs" "j < length xs"
      and b: "\<forall>k. i < k \<and> k < j \<longrightarrow> indent_of (xs ! k) \<noteq> 0"
      and c: "indent_of (xs ! j) \<noteq> 0"
      by auto
    from Suc.IH [OF a(1,2) b] c a(3) show ?thesis by (simp add: scan_prefix_step)
  qed
qed

lemma scan_prefix_frozen:
  "Suc (Suc m) \<le> k \<Longrightarrow> k \<le> k' \<Longrightarrow> k' \<le> length xs \<Longrightarrow>
   lines (scan_prefix ls xs k') ! m = lines (scan_prefix ls xs k) ! m"
proof (induction k')
  case 0
  then show ?case by simp
next
  case (Suc k')
  show ?case
  proof (cases "k = Suc k'")
    case True
    then show ?thesis by simp
  next
    case False
    with Suc.prems have a: "k \<le> k'" "k' \<le> length xs" "Suc m < k'" by auto
    from Suc.IH [OF Suc.prems(1) a(1,2)]
    have ih: "lines (scan_prefix ls xs k') ! m = lines (scan_prefix ls xs k) ! m" .
    from scan_line_lines [of ls k' "scan_prefix ls xs k'"] a(3)
    have "lines (scan_prefix ls xs (Suc k')) ! m = lines (scan_prefix ls xs k') ! m"
      by (auto simp: scan_prefix_Suc append_to_previous_def Let_def)
    with ih show ?thesis by simp
  qed
qed

lemma terminate_last_nth:
  "Suc m < length (lines st) \<Longrightarrow> terminate_last ls st ! m = lines st ! m"
  by (simp add: terminate_last_def nth_append)

lemma scan_lines_nth:
  assumes "0 < j" "j < length xs"
  shows "lines (scan_lines ls xs) ! (j - 1) = lines (scan_prefix ls xs (Suc j)) ! (j - 1)"
    and "terminate_last ls (scan_lines ls xs) ! (j - 1) = lines (scan_prefix ls xs (Suc j)) ! (j - 1)"
proof -
  from assms have "Suc (Suc (j - 1)) \<le> Suc j" "Suc j \<le> length xs" by simp_all
  from scan_prefix_frozen [OF this(1,2), of xs ls]
  show a: "lines (scan_lines ls xs) ! (j - 1) = lines (scan_prefix ls xs (Suc j)) ! (j - 1)"
    by (simp add: scan_lines_prefix)
  from assms have "Suc (j - 1) < length (lines (scan_lines ls xs))"
    by (simp add: scan_lines_prefix scan_prefix_length)
  from terminate_last_nth [OF this] a
  show "terminate_last ls (scan_lines ls xs) ! (j - 1) = lines (scan_prefix ls xs (Suc j)) ! (j - 1)"
    by simp
qed

lemma pending_at:
  assumes "i < j" "j \<le> length xs" "indent_of (xs ! i) = 0"
    "continuations (varname_match (xs ! i)) = Some allowed"
    "\<forall>k. i < k \<and> k < j \<longrightarrow> indent_of (xs ! k) \<noteq> 0"
  shows "maybe (scan_prefix ls xs j)" "nextexcept (scan_prefix ls xs j) = allowed"
proof -
  from assms have i: "i < length xs" and s: "Suc i \<le> j" by simp_all
  from scan_prefix_indented [OF s assms(2,5)]
  have e: "scan_prefix ls xs j = scan_prefix ls xs (Suc i)" .
  show "maybe (scan_prefix ls xs j)"
    by (simp add: e scan_prefix_step [OF i] assms(3,4) open_block_maybe)
  show "nextexcept (scan_prefix ls xs j) = allowed"
    by (simp add: e scan_prefix_step [OF i] assms(3,4) open_block_nextexcept)
qed

lemma step_at:
  assumes "0 < j" "j < length xs" "indent_of (xs ! j) = 0" "maybe (scan_prefix ls xs j)"
  shows "lines (scan_prefix ls xs (Suc j)) ! (j - 1) =
           (if varname_match (xs ! j) \<in> set (nextexcept (scan_prefix ls xs j))
            then xs ! (j - 1) else xs ! (j - 1) @ ls)"
    and "maybe (scan_prefix ls xs (Suc j)) =
           (continuations (varname_match (xs ! j)) \<noteq> None \<or>
            varname_match (xs ! j) \<in> set (nextexcept (scan_prefix ls xs j)))"
proof -
  from assms scan_prefix_inv [of j xs ls]
  have len: "length (lines (scan_prefix ls xs j)) = length xs"
    and p: "lines (scan_prefix ls xs j) ! (j - 1) = xs ! (j - 1)"
    by simp_all
  from assms len p
  show "lines (scan_prefix ls xs (Suc j)) ! (j - 1) =
           (if varname_match (xs ! j) \<in> set (nextexcept (scan_prefix ls xs j))
            then xs ! (j - 1) else xs ! (j - 1) @ ls)"
    by (simp add: scan_prefix_step open_block_lines close_pending_lines append_to_previous_def
        Let_def)
  from assms
  show "maybe (scan_prefix ls xs (Suc j)) =
           (continuations (varname_match (xs ! j)) \<noteq> None \<or>
            varname_match (xs ! j) \<in> set (nextexcept (scan_prefix ls xs j)))"
    by (simp add: scan_prefix_step open_block_maybe close_pending_maybe)
qed

text \<open>
  Claim C3. Let line \<open>i\<close> of the scanned lines have no indentation and begin with a
  reserved word that opens a block, let every line between \<open>i\<close> and \<open>j\<close> be indented
  and let line \<open>j\<close> have no indentation. When the leading word of line \<open>j\<close> is not
  among the words that may continue the block, the loop leaves the line before \<open>j\<close>
  with exactly one line separator appended, also in the lines that are joined at the
  end, and after line \<open>j\<close> a block is pending only if the word of line \<open>j\<close> itself
  opens one. When the word may continue the block, the line before \<open>j\<close> is left as it
  was and the block stays pending. On \<^verbatim>\<open>if True:\n    pass\nx = 1\n\<close> the result has
  an empty line between the \<^verbatim>\<open>pass\<close> line and \<^verbatim>\<open>x = 1\<close>.
\<close>

theorem pending_block_closed:
  assumes "i < j" "j < length xs"
    and "indent_of (xs ! i) = 0" "continuations (varname_match (xs ! i)) = Some allowed"
    and "\<forall>k. i < k \<and> k < j \<longrightarrow> indent_of (xs ! k) \<noteq> 0"
    and "indent_of (xs ! j) = 0"
  shows "(varname_match (xs ! j) \<notin> set allowed \<longrightarrow>
            lines (scan_lines ls xs) ! (j - 1) = xs ! (j - 1) @ ls \<and>
            terminate_last ls (scan_lines ls xs) ! (j - 1) = xs ! (j - 1) @ ls \<and>
            maybe (scan_prefix ls xs (Suc j)) = (continuations (varname_match (xs ! j)) \<noteq> None)) \<and>
         (varname_match (xs ! j) \<in> set allowed \<longrightarrow>
            lines (scan_lines ls xs) ! (j - 1) = xs ! (j - 1) \<and>
            maybe (scan_prefix ls xs (Suc j))) \<and>
         get_selection_as_executable_code ''if True:\<newline>    pass\<newline>x = 1\<newline>'' 0 ''\<newline>''
           = Inr (Some ''if True:\<newline>    pass\<newline>\<newline>x = 1\<newline>'')"
proof -
  from assms have j0: "0 < j" and jl: "j \<le> length xs" by simp_all
  from pending_at [OF assms(1) jl assms(3,4,5)]
  have m: "maybe (scan_prefix ls xs j)" and n: "nextexcept (scan_prefix ls xs j) = allowed" .
  note st = step_at [OF j0 assms(2,6) m, unfolded n]
  note fin = scan_lines_nth [OF j0 assms(2), of ls]
  have ex: "get_selection_as_executable_code ''if True:\<newline>    pass\<newline>x = 1\<newline>'' 0 ''\<newline>''
           = Inr (Some ''if True:\<newline>    pass\<newline>\<newline>x = 1\<newline>'')"
    by code_simp
  from st fin ex show ?thesis
    by simp
qed

theorem pending_block_closed_witness:
  "lines (scan_lines ''\<newline>'' [''def f():'', ''    pass'', ''x = 1'']) ! 1 = ''    pass\<newline>'' \<and>
   terminate_last ''\<newline>'' (scan_lines ''\<newline>'' [''def f():'', ''    pass'', ''x = 1'']) ! 1
     = ''    pass\<newline>'' \<and>
   \<not> maybe (scan_prefix ''\<newline>'' [''def f():'', ''    pass'', ''x = 1''] 3)"
proof -
  let ?xs = "[''def f():'', ''    pass'', ''x = 1'']"
  have a: "(0::nat) < 2" "2 < length ?xs" by simp_all
  have b: "indent_of (?xs ! 0) = 0"
    by (simp add: indent_of_def lstrip_def isspace_def)
  have c: "continuations (varname_match (?xs ! 0)) = Some []"
    by (simp add: continuations_def varname_match_def is_varname_char_def)
  have d: "\<forall>k. 0 < k \<and> k < 2 \<longrightarrow> indent_of (?xs ! k) \<noteq> 0"
  proof (intro allI impI)
    fix k :: nat
    assume "0 < k \<and> k < 2"
    then have "k = 1" by simp
    then show "indent_of (?xs ! k) \<noteq> 0"
      by (simp add: indent_of_def lstrip_def isspace_def)
  qed
  have e: "indent_of (?xs ! 2) = 0"
    by (simp add: indent_of_def lstrip_def isspace_def)
  have w: "varname_match ''x = 1'' = ''x''"
    by (simp add: varname_match_def is_varname_char_def)
  from pending_block_closed [OF a b c d e, of "''\<newline>''"]
  show ?thesis
    by (simp add: w continuations_def numeral_3_eq_3)
qed

section \<open>Properties of the console\<close>

lemma find_char_None: "c \<notin> set s \<Longrightarrow> find_char c s = None"
  by (induction s) auto

lemma find_char_first: "c \<notin> set a \<Longrightarrow> find_char c (a @ c # b) = Some (length a)"
  by (induction a) auto

lemma form_feed_loop_none: "FF \<notin> set b \<Longrightarrow> form_feed_loop b w = (b, w)"
  by (simp add: find_char_None)

lemma form_feed_loop_step:
  "FF \<notin> set a \<Longrightarrow> form_feed_loop (a @ FF # b) w = form_feed_loop b (clear w)"
  by (subst form_feed_loop.simps) (simp add: find_char_first)

lemma clear_clear: "clear (clear w) = clear w"
  by (simp add: clear_def)

lemma form_feed_loop_last:
  "FF \<notin> set b \<Longrightarrow> form_feed_loop (a @ FF # b) w = (b, clear w)"
proof (induction "length a" arbitrary: a w rule: less_induct)
  case less
  show ?case
  proof (cases "FF \<in> set a")
    case False
    with less.prems show ?thesis
      by (simp add: form_feed_loop_step form_feed_loop_none del: form_feed_loop.simps)
  next
    case True
    then obtain a1 a2 where a: "a = a1 @ FF # a2" and a1: "FF \<notin> set a1"
      by (auto dest: split_list_first)
    have "form_feed_loop (a @ FF # b) w = form_feed_loop (a1 @ FF # (a2 @ FF # b)) w"
      by (simp add: a)
    also have "\<dots> = form_feed_loop (a2 @ FF # b) (clear w)"
      using a1 by (rule form_feed_loop_step)
    also have "\<dots> = (b, clear (clear w))"
      using less.hyps [of a2 "clear w"] less.prems by (simp add: a)
    finally show ?thesis by (simp add: clear_clear)
  qed
qed

text \<open>
  Claim C9. When the text holds a form feed, \<^verbatim>\<open>append_text_to_shell\<close> does what it
  does on the text after the last form feed with the document cleared: nothing that
  stands before the last form feed, nor the form feed, is inserted.
\<close>

theorem form_feed_discards_earlier_text:
  "FF \<notin> set b \<Longrightarrow>
   append_text_to_shell colors (a @ FF # b) error prompt w =
   append_text_to_shell colors b error prompt (clear w)"
  by (simp add: append_text_to_shell_def form_feed_loop_last form_feed_loop_none
      del: form_feed_loop.simps)

theorem form_feed_discards_earlier_text_witness:
  "FF \<notin> set ''new'' \<and>
   append_text_to_shell sample_colors (''old'' @ FF # ''new'') False True
     (sample_console\<lparr>inserted := [(''before'', None)]\<rparr>) =
   Done (sample_console\<lparr>inserted := [(''new'', None)], current_char_format := Some sample_format\<rparr>)"
proof -
  have h: "FF \<notin> set ''new''" by (simp add: FF_def)
  have "append_text_to_shell sample_colors ''new'' False True
          (clear (sample_console\<lparr>inserted := [(''before'', None)]\<rparr>)) =
        Done (sample_console\<lparr>inserted := [(''new'', None)], current_char_format := Some sample_format\<rparr>)"
    using h by (simp add: append_text_to_shell_def form_feed_loop_none clear_def finish_def
        insertText_def sample_console_def del: form_feed_loop.simps)
  with form_feed_discards_earlier_text [OF h, of sample_colors "''old''" False True
      "sample_console\<lparr>inserted := [(''before'', None)]\<rparr>"] h
  show ?thesis by simp
qed

lemma decode_from_no_match:
  "\<not> contains_match s \<Longrightarrow>
   decode_from colors run s w = Done (insertText (run @ s) (default_style_format w) w)"
proof (induction s arbitrary: run)
  case Nil
  then show ?case by simp
next
  case (Cons c s)
  from Cons.prems have m: "match_here (c # s) = None"
    by (cases "match_here (c # s)") simp_all
  from Cons.prems have "\<not> contains_match s" by simp
  with Cons.IH [of "run @ [c]"] m show ?case
    by (subst decode_from.simps) simp
qed

text \<open>
  Claim C6. On a text without a match of the colour pattern the decoding inserts one
  run, the whole text, with the current format of the default style; the handler is
  not touched. Through \<^verbatim>\<open>append_text_to_shell\<close> the same holds for a text without
  form feed.
\<close>

theorem plain_text_is_one_run:
  "\<not> contains_match text \<Longrightarrow>
   decode colors text w = Done (w\<lparr>inserted := inserted w @ [(text, default_style_format w)]\<rparr>) \<and>
   (FF \<notin> set text \<longrightarrow>
      append_text_to_shell colors text False False w =
      Done (w\<lparr>inserted := inserted w @ [(text, default_style_format w)],
              current_char_format := default_style_format w\<rparr>))"
  by (simp add: decode_def decode_from_no_match insertText_def append_text_to_shell_def
      form_feed_loop_none finish_def del: decode_from.simps form_feed_loop.simps)

theorem plain_text_is_one_run_witness:
  "\<not> contains_match ''hello'' \<and> FF \<notin> set ''hello'' \<and>
   decode sample_colors ''hello'' sample_console =
     Done (sample_console\<lparr>inserted := [(''hello'', Some sample_format)]\<rparr>)"
proof -
  have h: "\<not> contains_match ''hello''"
    by (simp add: match_here_def SOH_def ESC_def)
  have f: "FF \<notin> set ''hello''" by (simp add: FF_def)
  from plain_text_is_one_run [OF h, of sample_colors sample_console] h f
  show ?thesis by (simp add: sample_console_def)
qed


lemma py_index_nth:
  "0 \<le> i \<Longrightarrow> i < int (length xs) \<Longrightarrow> py_index xs i = Inr (xs ! nat i)"
  by (simp add: py_index_def)

lemma table_color_nth:
  assumes "table_ok colors" "0 \<le> i" "i < 8" "j = 0 \<or> j = 1"
  shows "table_color colors i j = Inr (colors ! nat i ! nat j)"
proof -
  from assms have len: "length colors = 8" by (simp add: table_ok_def)
  with assms have row: "py_index colors i = Inr (colors ! nat i)"
    by (simp add: py_index_nth)
  from len assms have "colors ! nat i \<in> set colors" by (simp add: nth_mem)
  with assms have "length (colors ! nat i) = 2" by (simp add: table_ok_def)
  with assms(4) have "py_index (colors ! nat i) j = Inr ((colors ! nat i) ! nat j)"
    by (auto simp: py_index_nth)
  with row show ?thesis by (simp add: table_color_def)
qed

lemma foreground_qcolor_value:
  assumes "table_ok colors" "base_format h = Some b" "codes_in_range h"
  shows "foreground_qcolor colors h =
           Inr (case foreground_color h of None \<Rightarrow> foreground b
                | Some c \<Rightarrow> colors ! nat (c - 30) ! nat (intensity h))"
proof (cases "foreground_color h")
  case None
  with assms show ?thesis by (simp add: foreground_qcolor_def of_base_def)
next
  case (Some c)
  with assms have "0 \<le> c - 30" "c - 30 < 8" "intensity h = 0 \<or> intensity h = 1"
    by (auto simp: codes_in_range_def)
  from table_color_nth [OF assms(1) this] Some show ?thesis
    by (simp add: foreground_qcolor_def)
qed

lemma background_qcolor_value:
  assumes "table_ok colors" "base_format h = Some b" "codes_in_range h"
  shows "background_qcolor colors h =
           Inr (case background_color h of None \<Rightarrow> background b
                | Some c \<Rightarrow> colors ! nat (c - 40) ! nat (intensity h))"
proof (cases "background_color h")
  case None
  with assms show ?thesis by (simp add: background_qcolor_def of_base_def)
next
  case (Some c)
  with assms have "0 \<le> c - 40" "c - 40 < 8" "intensity h = 0 \<or> intensity h = 1"
    by (auto simp: codes_in_range_def)
  from table_color_nth [OF assms(1) this] Some show ?thesis
    by (simp add: background_qcolor_def)
qed

lemma attribute_value:
  "base_format h = Some b \<Longrightarrow>
   attribute h v get = Inr (case v of None \<Rightarrow> get (font b) | Some x \<Rightarrow> x)"
  by (cases v) (simp_all add: attribute_def of_base_def)

lemma styled_font_value:
  assumes "base_format h = Some b"
  shows "styled_font h f =
           Inr (f\<lparr>font_italic := (case italic h of None \<Rightarrow> font_italic (font b) | Some x \<Rightarrow> x),
                  font_bold := (case bold h of None \<Rightarrow> font_bold (font b) | Some x \<Rightarrow> x),
                  font_underline :=
                    (case underline h of None \<Rightarrow> font_underline (font b) | Some x \<Rightarrow> x)\<rparr>)"
  by (simp add: styled_font_def attribute_value [OF assms])

lemma set_style_value:
  assumes "table_ok colors" "base_format h = Some b" "codes_in_range h"
  shows "set_style colors h =
     Done (h\<lparr>current_format := Some
       \<lparr>foreground = (case foreground_color h of None \<Rightarrow> foreground b
                       | Some c \<Rightarrow> colors ! nat (c - 30) ! nat (intensity h)),
        background = (case background_color h of None \<Rightarrow> background b
                       | Some c \<Rightarrow> colors ! nat (c - 40) ! nat (intensity h)),
        font = (font (case current_format h of None \<Rightarrow> b | Some cur \<Rightarrow> cur))
                 \<lparr>font_italic := (case italic h of None \<Rightarrow> font_italic (font b) | Some x \<Rightarrow> x),
                  font_bold := (case bold h of None \<Rightarrow> font_bold (font b) | Some x \<Rightarrow> x),
                  font_underline :=
                    (case underline h of None \<Rightarrow> font_underline (font b) | Some x \<Rightarrow> x)\<rparr>\<rparr>\<rparr>)"
proof -
  have cur: "(case current_format h of Some cur \<Rightarrow> Inr cur
            | None \<Rightarrow> (case base_format h of None \<Rightarrow> Inl AssertionError | Some b \<Rightarrow> Inr b))
           = (Inr (case current_format h of None \<Rightarrow> b | Some cur \<Rightarrow> cur) :: error + char_format)"
    using assms(2) by (cases "current_format h") simp_all
  show ?thesis
    unfolding set_style_def
    by (simp add: cur foreground_qcolor_value [OF assms] background_qcolor_value [OF assms]
        styled_font_value [OF assms(2)])
qed

lemma set_style_no_assertion:
  assumes "base_format h = Some b"
  shows "set_style colors h \<noteq> Raised AssertionError h'"
proof -
  have "foreground_qcolor colors h \<noteq> Inl AssertionError"
    using assms
    by (auto simp: foreground_qcolor_def of_base_def table_color_def py_index_def
        split: option.splits sum.splits if_splits)
  moreover have "background_qcolor colors h \<noteq> Inl AssertionError"
    using assms
    by (auto simp: background_qcolor_def of_base_def table_color_def py_index_def
        split: option.splits sum.splits if_splits)
  moreover have "styled_font h f \<noteq> Inl AssertionError" for f
    by (simp add: styled_font_value [OF assms])
  ultimately show ?thesis
    using assms unfolding set_style_def
    by (auto split: option.splits sum.splits)
qed

lemma codes_in_range_kept:
  "codes_in_range h \<Longrightarrow> codes_in_range (set_light_background state h)"
  "codes_in_range h \<Longrightarrow> codes_in_range (set_base_format f h)"
  "codes_in_range h \<Longrightarrow> codes_in_range (set_code_attributes code h)"
  "codes_in_range h \<Longrightarrow> set_style colors h = Done h' \<Longrightarrow> codes_in_range h'"
proof -
  show "codes_in_range h \<Longrightarrow> codes_in_range (set_light_background state h)"
    by (simp add: codes_in_range_def set_light_background_def)
  show "codes_in_range h \<Longrightarrow> codes_in_range (set_base_format f h)"
    by (simp add: codes_in_range_def set_base_format_def)
  show "codes_in_range h \<Longrightarrow> codes_in_range (set_code_attributes code h)"
    by (simp add: codes_in_range_def set_code_attributes_def)
  show "codes_in_range h \<Longrightarrow> set_style colors h = Done h' \<Longrightarrow> codes_in_range h'"
    unfolding set_style_def
    by (auto simp: codes_in_range_def split: sum.splits option.splits)
qed

text \<open>
  Claim C10. On a handler that is fresh from its constructor \<^verbatim>\<open>set_style\<close> fails
  its assertion. After \<^verbatim>\<open>set_base_format\<close> with a format \<open>b\<close> the assertion never
  fails, whatever the handler holds, and for colour codes and a table as in the data
  model \<^verbatim>\<open>set_style\<close> returns with this format cached: the foreground and the
  background are the colours of the table at the codes that are set and those of \<open>b\<close>
  otherwise; italic, bold and underline are the values that are set and those of the
  font of \<open>b\<close> otherwise; the rest of the font is that of the format cached before, or
  of \<open>b\<close> when none was cached.
\<close>

theorem set_style_needs_base_format:
  "set_style colors (handler_init h0) = Raised AssertionError (handler_init h0) \<and>
   set_style colors (set_base_format (Some b) h) \<noteq> Raised AssertionError h' \<and>
   (table_ok colors \<and> codes_in_range h \<longrightarrow>
      set_style colors (set_base_format (Some b) h) =
        Done ((set_base_format (Some b) h)\<lparr>current_format := Some
          \<lparr>foreground = (case foreground_color h of None \<Rightarrow> foreground b
                          | Some c \<Rightarrow> colors ! nat (c - 30) ! nat (intensity h)),
           background = (case background_color h of None \<Rightarrow> background b
                          | Some c \<Rightarrow> colors ! nat (c - 40) ! nat (intensity h)),
           font = (font (case current_format h of None \<Rightarrow> b | Some cur \<Rightarrow> cur))
                    \<lparr>font_italic := (case italic h of None \<Rightarrow> font_italic (font b) | Some x \<Rightarrow> x),
                     font_bold := (case bold h of None \<Rightarrow> font_bold (font b) | Some x \<Rightarrow> x),
                     font_underline :=
                       (case underline h of None \<Rightarrow> font_underline (font b) | Some x \<Rightarrow> x)\<rparr>\<rparr>\<rparr>))"
proof (intro conjI impI)
  show "set_style colors (handler_init h0) = Raised AssertionError (handler_init h0)"
    by (simp add: set_style_def handler_init_def)
next
  have "base_format (set_base_format (Some b) h) = Some b"
    by (simp add: set_base_format_def)
  then show "set_style colors (set_base_format (Some b) h) \<noteq> Raised AssertionError h'"
    by (rule set_style_no_assertion)
next
  assume a: "table_ok colors \<and> codes_in_range h"
  then have r: "codes_in_range (set_base_format (Some b) h)"
    by (simp add: codes_in_range_def set_base_format_def)
  have bf: "base_format (set_base_format (Some b) h) = Some b"
    by (simp add: set_base_format_def)
  from a have t: "table_ok colors" by simp
  from set_style_value [OF t bf r]
  show "set_style colors (set_base_format (Some b) h) =
        Done ((set_base_format (Some b) h)\<lparr>current_format := Some
          \<lparr>foreground = (case foreground_color h of None \<Rightarrow> foreground b
                          | Some c \<Rightarrow> colors ! nat (c - 30) ! nat (intensity h)),
           background = (case background_color h of None \<Rightarrow> background b
                          | Some c \<Rightarrow> colors ! nat (c - 40) ! nat (intensity h)),
           font = (font (case current_format h of None \<Rightarrow> b | Some cur \<Rightarrow> cur))
                    \<lparr>font_italic := (case italic h of None \<Rightarrow> font_italic (font b) | Some x \<Rightarrow> x),
                     font_bold := (case bold h of None \<Rightarrow> font_bold (font b) | Some x \<Rightarrow> x),
                     font_underline :=
                       (case underline h of None \<Rightarrow> font_underline (font b) | Some x \<Rightarrow> x)\<rparr>\<rparr>\<rparr>)"
    by (simp add: set_base_format_def cong: option.case_cong)
qed

lemma sample_table_ok: "table_ok sample_colors"
  by (simp add: table_ok_def sample_colors_def)

theorem set_style_needs_base_format_witness:
  "table_ok sample_colors \<and> codes_in_range styled_handler \<and>
   set_style sample_colors (set_base_format (Some sample_format) styled_handler) =
     Done (styled_handler\<lparr>base_format := Some sample_format, current_format := Some
       \<lparr>foreground = ''#800000'', background = ''#000080'',
        font = \<lparr>family = ''Monospace'', point_size = 10, font_italic = False,
                font_bold = True, font_underline = False\<rparr>\<rparr>\<rparr>)"
proof -
  have c: "codes_in_range styled_handler"
    by (simp add: codes_in_range_def styled_handler_def sample_handler_def)
  from set_style_needs_base_format [of sample_colors sample_handler sample_format styled_handler
      sample_handler] sample_table_ok c
  have "set_style sample_colors (set_base_format (Some sample_format) styled_handler) =
        Done ((set_base_format (Some sample_format) styled_handler)\<lparr>current_format := Some
          \<lparr>foreground = (case foreground_color styled_handler of None \<Rightarrow> foreground sample_format
                          | Some c \<Rightarrow> sample_colors ! nat (c - 30) ! nat (intensity styled_handler)),
           background = (case background_color styled_handler of None \<Rightarrow> background sample_format
                          | Some c \<Rightarrow> sample_colors ! nat (c - 40) ! nat (intensity styled_handler)),
           font = (font (case current_format styled_handler of None \<Rightarrow> sample_format
                         | Some cur \<Rightarrow> cur))
                    \<lparr>font_italic := (case italic styled_handler of
                                       None \<Rightarrow> font_italic (font sample_format) | Some x \<Rightarrow> x),
                     font_bold := (case bold styled_handler of
                                     None \<Rightarrow> font_bold (font sample_format) | Some x \<Rightarrow> x),
                     font_underline :=
                       (case underline styled_handler of
                          None \<Rightarrow> font_underline (font sample_format) | Some x \<Rightarrow> x)\<rparr>\<rparr>\<rparr>)"
    by blast
  then show ?thesis
    using sample_table_ok c
    by (simp add: styled_handler_def sample_handler_def sample_format_def sample_colors_def
        set_base_format_def)
qed

end
